theory Spec2Isabelle
  imports Complex_Main
begin

section \<open>Python values the notebook relies on\<close>

text \<open>
  The notebook \<^verbatim>\<open>LiveDiarization.ipynb\<close> is glue around three libraries: pyannote
  (annotations), whisper (speech recognition) and numpy. Its own code is the class
  \<^verbatim>\<open>WhisperTranscriber\<close>, the functions \<^verbatim>\<open>concat\<close> and
  \<^verbatim>\<open>colorize_transcription\<close>, and the stream pipeline. Every exception the
  notebook's own expressions can raise is a value of \<open>error\<close>; a function that can
  raise returns \<open>error + 'a\<close> with \<open>Inl\<close> for the exception.
\<close>

datatype error = IndexError | ValueError | TypeError | ArgumentOutOfRangeException

subsection \<open>List indexing\<close>

text \<open>
  \<^verbatim>\<open>xs[i]\<close> for a Python int \<open>i\<close>: an index from \<open>-len(xs)\<close> to \<open>-1\<close> counts from
  the end, and an index outside \<open>-len(xs) .. len(xs) - 1\<close> raises IndexError.
\<close>

definition py_index :: "'a list \<Rightarrow> int \<Rightarrow> error + 'a" where
  "py_index xs i =
     (if 0 \<le> i then (if i < int (length xs) then Inr (xs ! nat i) else Inl IndexError)
      else if - int (length xs) \<le> i then Inr (xs ! nat (int (length xs) + i))
      else Inl IndexError)"

subsection \<open>\<^verbatim>\<open>str.split(sep)\<close>\<close>

text \<open>
  \<^verbatim>\<open>s.split(sep)\<close> scans \<open>s\<close> from the left and cuts at every occurrence of
  \<open>sep\<close> that does not overlap an earlier one; \<open>cur\<close> is the piece being read. An
  empty separator raises ValueError.
\<close>

function split_from :: "string \<Rightarrow> string \<Rightarrow> string \<Rightarrow> string list" where
  "split_from sep cur [] = [cur]"
| "split_from sep cur (c # cs) =
     (if sep \<noteq> [] \<and> take (length sep) (c # cs) = sep
      then cur # split_from sep [] (drop (length sep) (c # cs))
      else split_from sep (cur @ [c]) cs)"
  by pat_completeness auto
termination
  by (relation "measure (\<lambda>(sep, cur, s). length s)") auto

definition py_split :: "string \<Rightarrow> string \<Rightarrow> error + string list" where
  "py_split s sep = (if sep = [] then Inl ValueError else Inr (split_from sep [] s))"

subsection \<open>\<^verbatim>\<open>int(s)\<close> and \<^verbatim>\<open>str(n)\<close>\<close>

text \<open>
  \<^verbatim>\<open>int(s)\<close> for a string, base ten: surrounding whitespace is dropped, one sign
  may lead, then decimal digits follow, where single underscores may stand between two
  digits; anything else raises ValueError, and so does a literal of more than
  \<^verbatim>\<open>sys.int_max_str_digits\<close> digits (4300 unless set otherwise; CPython 3.8.14 and
  later). A \<open>char\<close> is read as the code point of the same number (0 to 255): the
  whitespace \<^verbatim>\<open>int\<close> drops in that range is 9 to 13, 32, 133 and 160 (the code
  points 28 to 31 are not dropped), and its only decimal digits are \<open>0\<close> to \<open>9\<close>.
\<close>

definition is_space :: "char \<Rightarrow> bool" where
  "is_space c =
     (let n = (of_char c :: nat)
      in (9 \<le> n \<and> n \<le> 13) \<or> n = 32 \<or> n = 133 \<or> n = 160)"

definition is_digit :: "char \<Rightarrow> bool" where
  "is_digit c = (48 \<le> (of_char c :: nat) \<and> (of_char c :: nat) \<le> 57)"

definition digit_val :: "char \<Rightarrow> nat" where
  "digit_val c = (of_char c :: nat) - 48"

definition strip :: "string \<Rightarrow> string" where
  "strip s = rev (dropWhile is_space (rev (dropWhile is_space s)))"

fun int_digits :: "nat \<Rightarrow> string \<Rightarrow> nat option" where
  "int_digits acc [] = Some acc"
| "int_digits acc [c] = (if is_digit c then Some (10 * acc + digit_val c) else None)"
| "int_digits acc (c # d # ds) =
     (if is_digit c then int_digits (10 * acc + digit_val c) (d # ds)
      else if c = CHR ''_'' \<and> is_digit d then int_digits (10 * acc + digit_val d) ds
      else None)"

definition int_max_str_digits :: nat where
  "int_max_str_digits = 4300"

definition py_int :: "string \<Rightarrow> error + int" where
  "py_int s =
     (let t = strip s;
          negative = (t \<noteq> [] \<and> hd t = CHR ''-'');
          signed = (t \<noteq> [] \<and> (hd t = CHR ''-'' \<or> hd t = CHR ''+''));
          body = (if signed then tl t else t)
      in case body of
           [] \<Rightarrow> Inl ValueError
         | d # ds \<Rightarrow>
             if is_digit d then
               (case int_digits (digit_val d) ds of
                  None \<Rightarrow> Inl ValueError
                | Some n \<Rightarrow>
                    if int_max_str_digits < length (filter is_digit body) then Inl ValueError
                    else Inr (if negative then - int n else int n))
             else Inl ValueError)"

text \<open>
  \<^verbatim>\<open>str(n)\<close> for a non-negative int: its decimal numeral, most significant digit
  first; a numeral of more than \<^verbatim>\<open>sys.int_max_str_digits\<close> digits raises
  ValueError. The diarization library names the speakers it finds
  \<^verbatim>\<open>f"speaker{n}"\<close>.
\<close>

fun decimal :: "nat \<Rightarrow> string" where
  "decimal n =
     (if n < 10 then [char_of (48 + n)]
      else decimal (n div 10) @ [char_of (48 + n mod 10)])"

declare decimal.simps [simp del]

definition py_str :: "nat \<Rightarrow> error + string" where
  "py_str n =
     (if int_max_str_digits < length (decimal n) then Inl ValueError else Inr (decimal n))"

definition speaker_label :: "nat \<Rightarrow> error + string" where
  "speaker_label n =
     (case py_str n of Inl e \<Rightarrow> Inl e | Inr digits \<Rightarrow> Inr (''speaker'' @ digits))"

subsection \<open>\<^verbatim>\<open>numpy.argmax\<close> of a list\<close>

text \<open>
  The index of the first greatest element; the empty list raises ValueError. The scan
  keeps the best index and value so far and moves only on a strictly greater element.
\<close>

fun argmax_scan :: "nat \<Rightarrow> nat \<Rightarrow> 'd::linorder \<Rightarrow> 'd list \<Rightarrow> nat" where
  "argmax_scan i best_i best [] = best_i"
| "argmax_scan i best_i best (x # xs) =
     (if best < x then argmax_scan (Suc i) i x xs else argmax_scan (Suc i) best_i best xs)"

definition np_argmax :: "'d::linorder list \<Rightarrow> error + nat" where
  "np_argmax xs = (case xs of [] \<Rightarrow> Inl ValueError | x # rest \<Rightarrow> Inr (argmax_scan 1 0 x rest))"

section \<open>Data of the libraries\<close>

text \<open>
  A transcription is the dictionary whisper returns: its \<^verbatim>\<open>"text"\<close> and its
  \<^verbatim>\<open>"segments"\<close>, each segment with its \<^verbatim>\<open>"text"\<close> and its
  \<^verbatim>\<open>"words"\<close>, each word with its \<^verbatim>\<open>"start"\<close> and \<^verbatim>\<open>"end"\<close>
  time. Times are of a type \<open>'t\<close> with an addition (Python floats in the notebook).
\<close>

record 't word_timing =
  word_start :: 't
  word_end :: 't

record 't segment =
  seg_words :: "'t word_timing list"
  seg_text :: string

record 't transcription =
  tr_segments :: "'t segment list"
  tr_text :: string

text \<open>pyannote's \<^verbatim>\<open>Segment(start, end)\<close>, \<^verbatim>\<open>SlidingWindow\<close> and
  \<^verbatim>\<open>SlidingWindowFeature\<close>. The samples of a waveform are a list of frames along
  axis 0; a frame (one sample per channel) is of type \<open>'s\<close>.\<close>

datatype 't Segment = Segment 't 't

record 't SlidingWindow =
  sw_duration :: 't
  sw_step :: 't
  sw_start :: 't

record ('s, 't) SlidingWindowFeature =
  data :: "'s list"
  sliding_window :: "'t SlidingWindow"

text \<open>
  The operations of pyannote's \<^verbatim>\<open>Annotation\<close> that the notebook calls. The
  library is not part of the notebook, so the model takes its operations as a parameter:
  \<open>'ann\<close> is the type of annotations and \<open>'d\<close> the type of durations.
  \<^item> \<open>crop a seg\<close>: \<^verbatim>\<open>a.crop(seg)\<close>;
  \<^item> \<open>labels a\<close>: \<^verbatim>\<open>a.labels()\<close>;
  \<^item> \<open>label_duration a l\<close>: \<^verbatim>\<open>a.label_duration(l)\<close>;
  \<^item> \<open>new_annotation u\<close>: \<^verbatim>\<open>Annotation(uri=u)\<close>;
  \<^item> \<open>uri a\<close>: \<^verbatim>\<open>a.uri\<close>;
  \<^item> \<open>update a b\<close>: \<^verbatim>\<open>a.update(b)\<close>, which returns the updated \<open>a\<close>;
  \<^item> \<open>support a collar\<close>: \<^verbatim>\<open>a.support(collar)\<close>;
  \<^item> \<open>timeline_duration a\<close>: \<^verbatim>\<open>a.get_timeline().duration()\<close>.

  These operations return a value on every annotation. Where durations are compared
  they are linearly ordered (sums of interval lengths, never NaN).
\<close>

record ('ann, 't, 'd) pyannote =
  crop :: "'ann \<Rightarrow> 't Segment \<Rightarrow> 'ann"
  labels :: "'ann \<Rightarrow> string list"
  label_duration :: "'ann \<Rightarrow> string \<Rightarrow> 'd"
  new_annotation :: "string \<Rightarrow> 'ann"
  uri :: "'ann \<Rightarrow> string"
  update :: "'ann \<Rightarrow> 'ann \<Rightarrow> 'ann"
  support :: "'ann \<Rightarrow> 't \<Rightarrow> 'ann"
  timeline_duration :: "'ann \<Rightarrow> 'd"

section \<open>\<^verbatim>\<open>WhisperTranscriber.identify_speakers\<close>\<close>

type_synonym caption = "int \<times> string"

text \<open>
  The crop of one segment: the diarization cut to the interval from the first word's
  start to the last word's end, both shifted by \<open>time_shift\<close>. A segment without words
  raises IndexError at \<^verbatim>\<open>segment["words"][0]\<close>.
\<close>

definition segment_crop ::
  "('ann, 't::plus, 'd) pyannote \<Rightarrow> 'ann \<Rightarrow> 't \<Rightarrow> 't segment \<Rightarrow> error + 'ann" where
  "segment_crop P diarization time_shift segment =
     (case seg_words segment of
        [] \<Rightarrow> Inl IndexError
      | w # ws \<Rightarrow>
          (let start = time_shift + word_start w;
               end_time = time_shift + word_end (last (w # ws))
           in Inr (crop P diarization (Segment start end_time))))"

text \<open>\<^verbatim>\<open>int(label.split("speaker")[1])\<close>, the speaker id read from a label.\<close>

definition speaker_id :: "string \<Rightarrow> error + int" where
  "speaker_id label =
     (case py_split label ''speaker'' of
        Inl e \<Rightarrow> Inl e
      | Inr parts \<Rightarrow>
          (case py_index parts 1 of
             Inl e \<Rightarrow> Inl e
           | Inr digits \<Rightarrow> py_int digits))"

text \<open>The three branches on the number of labels of the crop.\<close>

definition assign_speaker ::
  "('ann, 't, 'd::linorder) pyannote \<Rightarrow> 'ann \<Rightarrow> string \<Rightarrow> error + caption" where
  "assign_speaker P dia txt =
     (let speakers = labels P dia;
          num_speakers = length speakers
      in if num_speakers = 0 then Inr (- 1, txt)
         else if num_speakers = 1 then
           (case speaker_id (speakers ! 0) of
              Inl e \<Rightarrow> Inl e
            | Inr spk_id \<Rightarrow> Inr (spk_id, txt))
         else
           (case np_argmax (map (label_duration P dia) speakers) of
              Inl e \<Rightarrow> Inl e
            | Inr max_speaker \<Rightarrow> Inr (int max_speaker, txt)))"

definition segment_caption ::
  "('ann, 't::plus, 'd::linorder) pyannote \<Rightarrow> 'ann \<Rightarrow> 't \<Rightarrow> 't segment \<Rightarrow> error + caption" where
  "segment_caption P diarization time_shift segment =
     (case segment_crop P diarization time_shift segment of
        Inl e \<Rightarrow> Inl e
      | Inr dia \<Rightarrow> assign_speaker P dia (seg_text segment))"

text \<open>The loop over the segments appends one caption per segment and stops at the
  first exception.\<close>

fun identify_loop ::
  "('ann, 't::plus, 'd::linorder) pyannote \<Rightarrow> 'ann \<Rightarrow> 't \<Rightarrow> 't segment list \<Rightarrow>
   caption list \<Rightarrow> error + caption list" where
  "identify_loop P diarization time_shift [] speaker_captions = Inr speaker_captions"
| "identify_loop P diarization time_shift (segment # rest) speaker_captions =
     (case segment_caption P diarization time_shift segment of
        Inl e \<Rightarrow> Inl e
      | Inr caption \<Rightarrow>
          identify_loop P diarization time_shift rest (speaker_captions @ [caption]))"

definition identify_speakers ::
  "('ann, 't::plus, 'd::linorder) pyannote \<Rightarrow> 't transcription \<Rightarrow> 'ann \<Rightarrow> 't \<Rightarrow>
   error + caption list" where
  "identify_speakers P transcription diarization time_shift =
     identify_loop P diarization time_shift (tr_segments transcription) []"

section \<open>\<^verbatim>\<open>WhisperTranscriber\<close>: construction, \<^verbatim>\<open>transcribe\<close> and \<^verbatim>\<open>__call__\<close>\<close>

text \<open>
  Python passes any value as an argument. The values that reach the constructor of
  \<^verbatim>\<open>WhisperTranscriber\<close> in the notebook are a model name, \<^verbatim>\<open>None\<close>, an
  annotation and a waveform.
\<close>

datatype ('ann, 'wav) py_value = PyStr string | PyNone | PyAnnotation 'ann | PyWaveform 'wav

text \<open>
  The operations of whisper (and of numpy on the sample array) that the class calls,
  again a parameter of the model:
  \<^item> \<open>load_model name device\<close>: \<^verbatim>\<open>whisper.load_model(name, device=device)\<close>,
    which can raise;
  \<^item> \<open>astype_float32_flat d\<close>: \<^verbatim>\<open>d.astype("float32").reshape(-1)\<close>;
  \<^item> \<open>pad_or_trim a\<close>: \<^verbatim>\<open>whisper.pad_or_trim(a)\<close>;
  \<^item> \<open>whisper_transcribe m a prompt\<close>:
    \<^verbatim>\<open>whisper.transcribe(m, a, initial_prompt=prompt, verbose=True)\<close>.

  Loading is the one operation that can raise here; the array operations and the
  recognition are taken to return a value.
\<close>

record ('arg, 'model, 's, 'audio, 't) whisper =
  load_model :: "'arg \<Rightarrow> 'arg \<Rightarrow> error + 'model"
  astype_float32_flat :: "'s list \<Rightarrow> 'audio"
  pad_or_trim :: "'audio \<Rightarrow> 'audio"
  whisper_transcribe :: "'model \<Rightarrow> 'audio \<Rightarrow> string \<Rightarrow> 't transcription"

text \<open>The object: \<^verbatim>\<open>self.model\<close> and \<^verbatim>\<open>self._buffer\<close>.\<close>

record 'model WhisperTranscriber =
  model :: 'model
  buffer :: string

text \<open>\<^verbatim>\<open>__init__(self, model="small", device=None)\<close>: calling the class runs it
  and returns the new object.\<close>

definition WhisperTranscriber_init ::
  "('arg, 'model, 's, 'audio, 't) whisper \<Rightarrow> 'arg \<Rightarrow> 'arg \<Rightarrow>
   error + 'model WhisperTranscriber" where
  "WhisperTranscriber_init W model_name device =
     (case load_model W model_name device of
        Inl e \<Rightarrow> Inl e
      | Inr m \<Rightarrow> Inr \<lparr>model = m, buffer = []\<rparr>)"

definition transcribe ::
  "('arg, 'model, 's, 'audio, 't) whisper \<Rightarrow> 'model WhisperTranscriber \<Rightarrow>
   ('s, 't) SlidingWindowFeature \<Rightarrow> 't transcription" where
  "transcribe W self waveform =
     (let audio = astype_float32_flat W (data waveform);
          audio = pad_or_trim W audio
      in whisper_transcribe W (model self) audio (buffer self))"

text \<open>
  \<^verbatim>\<open>__call__\<close> changes \<^verbatim>\<open>self._buffer\<close> before it assigns speakers, so the
  model returns the object as it is after the call together with the result, which is
  the list of captions or the exception \<^verbatim>\<open>identify_speakers\<close> raised.
\<close>

definition call ::
  "('arg, 'model, 's, 'audio, 't::plus) whisper \<Rightarrow> ('ann, 't, 'd::linorder) pyannote \<Rightarrow>
   'model WhisperTranscriber \<Rightarrow> 'ann \<Rightarrow> ('s, 't) SlidingWindowFeature \<Rightarrow>
   (error + caption list) \<times> 'model WhisperTranscriber" where
  "call W P self diarization waveform =
     (let transcription = transcribe W self waveform;
          self' = self\<lparr>buffer := buffer self @ tr_text transcription\<rparr>;
          time_shift = sw_start (sliding_window waveform);
          speaker_transcriptions = identify_speakers P transcription diarization time_shift
      in (speaker_transcriptions, self'))"

text \<open>
  Successive calls on one object. \<open>call_log\<close> lists, call by call, the prompt whisper
  was given and the text it returned; \<open>run_calls\<close> is the object after the last call.
\<close>

fun call_log ::
  "('arg, 'model, 's, 'audio, 't::plus) whisper \<Rightarrow> ('ann, 't, 'd::linorder) pyannote \<Rightarrow>
   'model WhisperTranscriber \<Rightarrow> ('ann \<times> ('s, 't) SlidingWindowFeature) list \<Rightarrow>
   (string \<times> string) list" where
  "call_log W P self [] = []"
| "call_log W P self ((diarization, waveform) # rest) =
     (buffer self, tr_text (transcribe W self waveform))
       # call_log W P (snd (call W P self diarization waveform)) rest"

fun run_calls ::
  "('arg, 'model, 's, 'audio, 't::plus) whisper \<Rightarrow> ('ann, 't, 'd::linorder) pyannote \<Rightarrow>
   'model WhisperTranscriber \<Rightarrow> ('ann \<times> ('s, 't) SlidingWindowFeature) list \<Rightarrow>
   'model WhisperTranscriber" where
  "run_calls W P self [] = self"
| "run_calls W P self ((diarization, waveform) # rest) =
     run_calls W P (snd (call W P self diarization waveform)) rest"

section \<open>\<^verbatim>\<open>concat\<close>\<close>

text \<open>\<^verbatim>\<open>numpy.concatenate(arrays, axis=0)\<close> of arrays whose frames have one type:
  the frames of all arrays in order; an empty list of arrays raises ValueError.\<close>

definition np_concatenate :: "'s list list \<Rightarrow> error + 's list" where
  "np_concatenate arrays = (if arrays = [] then Inl ValueError else Inr (concat arrays))"

text \<open>The loop of \<^verbatim>\<open>concat\<close>: \<^verbatim>\<open>annotation.update(ann)\<close> and
  \<^verbatim>\<open>data.append(wav.data)\<close> for every chunk.\<close>

fun concat_loop ::
  "('ann, 't, 'd) pyannote \<Rightarrow> ('ann \<times> ('s, 't) SlidingWindowFeature) list \<Rightarrow> 'ann \<Rightarrow>
   's list list \<Rightarrow> 'ann \<times> 's list list" where
  "concat_loop P [] annotation arrays = (annotation, arrays)"
| "concat_loop P ((ann, wav) # rest) annotation arrays =
     concat_loop P rest (update P annotation ann) (arrays @ [data wav])"

text \<open>
  \<^verbatim>\<open>concat(chunks, collar=0.05)\<close>, named \<open>concat_chunks\<close> here since \<open>concat\<close> is
  the list function of HOL. \<^verbatim>\<open>chunks[0]\<close> raises IndexError on the empty list.
\<close>

definition concat_chunks ::
  "('ann, 't, 'd) pyannote \<Rightarrow> ('ann \<times> ('s, 't) SlidingWindowFeature) list \<Rightarrow> 't \<Rightarrow>
   error + ('ann \<times> ('s, 't) SlidingWindowFeature)" where
  "concat_chunks P chunks collar =
     (case chunks of
        [] \<Rightarrow> Inl IndexError
      | first # _ \<Rightarrow>
          (let first_annotation = fst first;
               first_waveform = snd first;
               annotation = new_annotation P (uri P first_annotation);
               (annotation, arrays) = concat_loop P chunks annotation [];
               annotation = support P annotation collar;
               window = \<lparr>sw_duration = sw_duration (sliding_window first_waveform),
                         sw_step = sw_step (sliding_window first_waveform),
                         sw_start = sw_start (sliding_window first_waveform)\<rparr>
           in case np_concatenate arrays of
                Inl e \<Rightarrow> Inl e
              | Inr d \<Rightarrow> Inr (annotation, \<lparr>data = d, sliding_window = window\<rparr>)))"

section \<open>\<^verbatim>\<open>colorize_transcription\<close>\<close>

definition palette :: "string list" where
  "palette =
     [''bright_red'', ''bright_blue'', ''bright_green'', ''orange3'', ''deep_pink1'',
      ''yellow2'', ''magenta'', ''cyan'', ''bright_magenta'', ''dodger_blue2'']"

text \<open>\<^verbatim>\<open>colors = 2 * [...]\<close>: the ten names twice, a list of twenty.\<close>

definition colors :: "string list" where
  "colors = concat (replicate 2 palette)"

fun py_join :: "string \<Rightarrow> string list \<Rightarrow> string" where
  "py_join sep [] = []"
| "py_join sep [x] = x"
| "py_join sep (x # y # ys) = x @ sep @ py_join sep (y # ys)"

fun colorize_loop :: "caption list \<Rightarrow> string list \<Rightarrow> error + string list" where
  "colorize_loop [] result = Inr result"
| "colorize_loop ((speaker, txt) # rest) result =
     (if speaker = - 1 then colorize_loop rest (result @ [txt])
      else
        (case py_index colors speaker of
           Inl e \<Rightarrow> Inl e
         | Inr color \<Rightarrow> colorize_loop rest (result @ [''['' @ color @ '']'' @ txt])))"

definition colorize_transcription :: "caption list \<Rightarrow> error + string" where
  "colorize_transcription transcription =
     (case colorize_loop transcription [] of
        Inl e \<Rightarrow> Inl e
      | Inr result \<Rightarrow> Inr (py_join [CHR 0x0A] result))"

section \<open>The stream pipeline\<close>

text \<open>
  \<^verbatim>\<open>batch_size = int(transcription_duration // config.step)\<close> with the notebook's
  constants 2 and 0.5, both exact as floats.
\<close>

definition transcription_duration :: rat where
  "transcription_duration = 2"

definition config_step :: rat where
  "config_step = 1 / 2"

definition batch_size :: int where
  "batch_size = \<lfloor>transcription_duration / config_step\<rfloor>"

text \<open>
  \<^verbatim>\<open>ops.buffer_with_count(count)\<close> of the stream library, on a finite run of the
  stream: a count that is not positive raises the library's
  ArgumentOutOfRangeException; otherwise the items come in groups of \<open>count\<close>, the
  last group with what is left when the stream ends, and no empty group is emitted.
\<close>

function groups_of :: "nat \<Rightarrow> 'a list \<Rightarrow> 'a list list" where
  "groups_of count xs =
     (if count = 0 \<or> xs = [] then []
      else take count xs # groups_of count (drop count xs))"
  by pat_completeness auto
termination
  by (relation "measure (\<lambda>(count, xs). length xs)") auto

declare groups_of.simps [simp del]

definition buffer_with_count :: "int \<Rightarrow> 'a list \<Rightarrow> error + 'a list list" where
  "buffer_with_count count xs =
     (if count \<le> 0 then Inl ArgumentOutOfRangeException
      else Inr (groups_of (nat count) xs))"

text \<open>The filter \<^verbatim>\<open>lambda ann_wav: ann_wav[0].get_timeline().duration() > 0\<close>.\<close>

definition has_speech ::
  "('ann, 't, 'd::{zero,linorder}) pyannote \<Rightarrow> 'ann \<times> 'wav \<Rightarrow> bool" where
  "has_speech P ann_wav = (0 < timeline_duration P (fst ann_wav))"

text \<open>
  \<^verbatim>\<open>asr = WhisperTranscriber\<close> binds the class, so \<^verbatim>\<open>ops.starmap(asr)\<close> calls
  the class on the two components of the pair: the annotation arrives as
  \<^verbatim>\<open>model\<close> and the waveform as \<^verbatim>\<open>device\<close>. What a stage hands on is a list
  of captions or a transcriber object.
\<close>

datatype 'model stage_value =
  Captions "caption list" | TranscriberObject "'model WhisperTranscriber"

definition asr ::
  "('arg, 'model, 's, 'audio, 't) whisper \<Rightarrow> 'arg \<Rightarrow> 'arg \<Rightarrow>
   error + 'model WhisperTranscriber" where
  "asr W = WhisperTranscriber_init W"

definition starmap_asr ::
  "(('ann, 'wav) py_value, 'model, 's, 'audio, 't) whisper \<Rightarrow> 'ann \<times> 'wav \<Rightarrow>
   error + 'model stage_value" where
  "starmap_asr W ann_wav =
     (case asr W (PyAnnotation (fst ann_wav)) (PyWaveform (snd ann_wav)) of
        Inl e \<Rightarrow> Inl e
      | Inr obj \<Rightarrow> Inr (TranscriberObject obj))"

text \<open>\<^verbatim>\<open>ops.map(colorize_transcription)\<close>: the \<^verbatim>\<open>for\<close> loop over a value
  that is not iterable raises TypeError.\<close>

definition map_colorize :: "'model stage_value \<Rightarrow> error + string" where
  "map_colorize v =
     (case v of
        Captions transcription \<Rightarrow> colorize_transcription transcription
      | TranscriberObject obj \<Rightarrow> Inl TypeError)"

section \<open>An implementation of the library operations, for worked examples\<close>

text \<open>
  The theorems below hold for every implementation of the library operations. To run
  the notebook's functions on concrete data, this section implements the operations on
  annotations that are lists of labelled intervals \<open>(start, end, label)\<close> over the
  rationals: cropping intersects every interval with the segment and keeps what has
  positive length, labels come in sorted order without repetition, a duration is that
  of the union of the intervals, and the support joins two intervals of a label that
  overlap, touch or are less than \<open>collar\<close> apart.
\<close>

record interval_annotation =
  ia_uri :: string
  ia_tracks :: "(rat \<times> rat \<times> string) list"

fun overlap :: "rat Segment \<Rightarrow> rat \<times> rat \<times> string \<Rightarrow> (rat \<times> rat \<times> string) list" where
  "overlap (Segment s e) (b, f, l) =
     (if max s b < min e f then [(max s b, min e f, l)] else [])"

definition ia_crop :: "interval_annotation \<Rightarrow> rat Segment \<Rightarrow> interval_annotation" where
  "ia_crop a seg = a\<lparr>ia_tracks := concat (map (overlap seg) (ia_tracks a))\<rparr>"

fun str_le :: "string \<Rightarrow> string \<Rightarrow> bool" where
  "str_le [] ys = True"
| "str_le (x # xs) [] = False"
| "str_le (x # xs) (y # ys) =
     ((of_char x :: nat) < of_char y \<or> (x = y \<and> str_le xs ys))"

fun insert_label :: "string \<Rightarrow> string list \<Rightarrow> string list" where
  "insert_label l [] = [l]"
| "insert_label l (m # ms) =
     (if l = m then m # ms
      else if str_le l m then l # m # ms
      else m # insert_label l ms)"

definition ia_labels :: "interval_annotation \<Rightarrow> string list" where
  "ia_labels a = foldr insert_label (map (\<lambda>(b, f, l). l) (ia_tracks a)) []"

fun merge_from :: "rat \<Rightarrow> rat \<times> rat \<Rightarrow> (rat \<times> rat) list \<Rightarrow> (rat \<times> rat) list" where
  "merge_from collar cur [] = [cur]"
| "merge_from collar (b, f) ((b', f') # rest) =
     (if b' \<le> f \<or> b' - f < collar then merge_from collar (b, max f f') rest
      else (b, f) # merge_from collar (b', f') rest)"

definition merged :: "rat \<Rightarrow> (rat \<times> rat) list \<Rightarrow> (rat \<times> rat) list" where
  "merged collar ivs =
     (case sort_key fst ivs of [] \<Rightarrow> [] | iv # rest \<Rightarrow> merge_from collar iv rest)"

definition intervals_of :: "interval_annotation \<Rightarrow> string \<Rightarrow> (rat \<times> rat) list" where
  "intervals_of a l = map (\<lambda>(b, f, l'). (b, f)) (filter (\<lambda>(b, f, l'). l' = l) (ia_tracks a))"

definition total :: "(rat \<times> rat) list \<Rightarrow> rat" where
  "total ivs = sum_list (map (\<lambda>(b, f). f - b) ivs)"

definition ia_label_duration :: "interval_annotation \<Rightarrow> string \<Rightarrow> rat" where
  "ia_label_duration a l = total (merged 0 (intervals_of a l))"

definition ia_update :: "interval_annotation \<Rightarrow> interval_annotation \<Rightarrow> interval_annotation" where
  "ia_update a b = a\<lparr>ia_tracks := ia_tracks a @ ia_tracks b\<rparr>"

definition ia_support :: "interval_annotation \<Rightarrow> rat \<Rightarrow> interval_annotation" where
  "ia_support a collar =
     a\<lparr>ia_tracks :=
         concat (map (\<lambda>l. map (\<lambda>(b, f). (b, f, l)) (merged collar (intervals_of a l)))
                     (ia_labels a))\<rparr>"

definition ia_timeline_duration :: "interval_annotation \<Rightarrow> rat" where
  "ia_timeline_duration a = total (merged 0 (map (\<lambda>(b, f, l). (b, f)) (ia_tracks a)))"

definition intervals :: "(interval_annotation, rat, rat) pyannote" where
  "intervals =
     \<lparr>crop = ia_crop, labels = ia_labels, label_duration = ia_label_duration,
      new_annotation = (\<lambda>u. \<lparr>ia_uri = u, ia_tracks = []\<rparr>), uri = ia_uri,
      update = ia_update, support = ia_support, timeline_duration = ia_timeline_duration\<rparr>"

text \<open>
  A recogniser to run the class on: loading accepts a model name only (the notebook's
  own run shows \<^verbatim>\<open>whisper.load_model\<close> raising TypeError on an annotation), the
  audio is handed on as it is, and every transcription is one segment of one word,
  whose text depends on whether a prompt was given.
\<close>

definition spoken :: "string \<Rightarrow> rat segment" where
  "spoken txt = \<lparr>seg_words = [\<lparr>word_start = 1 / 4, word_end = 3 / 4\<rparr>], seg_text = txt\<rparr>"

definition heard :: "string \<Rightarrow> rat transcription" where
  "heard txt = \<lparr>tr_segments = [spoken txt], tr_text = txt\<rparr>"

definition recogniser ::
  "((interval_annotation, (rat, rat) SlidingWindowFeature) py_value, string, rat, rat list, rat)
   whisper" where
  "recogniser =
     \<lparr>load_model = (\<lambda>name device. case name of PyStr n \<Rightarrow> Inr n | _ \<Rightarrow> Inl TypeError),
      astype_float32_flat = (\<lambda>d. d),
      pad_or_trim = (\<lambda>a. a),
      whisper_transcribe =
        (\<lambda>m audio prompt. heard (if prompt = [] then '' hello'' else '' again''))\<rparr>"

text \<open>Data for the examples: a diarization silent until second 2, and a recording.\<close>

definition quiet :: interval_annotation where
  "quiet = \<lparr>ia_uri = ''call'', ia_tracks = [(2, 3, ''speaker0'')]\<rparr>"

definition recording :: "rat \<Rightarrow> (rat, rat) SlidingWindowFeature" where
  "recording start =
     \<lparr>data = [0, 1 / 8, - 1 / 8],
      sliding_window = \<lparr>sw_duration = 5, sw_step = 1 / 2, sw_start = start\<rparr>\<rparr>"

definition two_voices :: interval_annotation where
  "two_voices =
     \<lparr>ia_uri = ''call'', ia_tracks = [(0, 1 / 2, ''speaker1''), (1 / 2, 2, ''speaker2'')]\<rparr>"

text \<open>A diarization with one speaker, active from second 0 to second 1 under the
  given label.\<close>

definition one_voice :: "string \<Rightarrow> interval_annotation" where
  "one_voice l = \<lparr>ia_uri = ''call'', ia_tracks = [(0, 1, l)]\<rparr>"

text \<open>A diarization labelled the way pyannote's offline pipeline labels speakers.\<close>

definition offline :: interval_annotation where
  "offline = \<lparr>ia_uri = ''call'', ia_tracks = [(0, 1, ''SPEAKER_00'')]\<rparr>"

text \<open>The number a string of decimal digits denotes, read from the left.\<close>

definition dec_value :: "nat \<Rightarrow> string \<Rightarrow> nat" where
  "dec_value acc ds = foldl (\<lambda>a c. 10 * a + digit_val c) acc ds"

text \<open>
  The labels the single-speaker branch can read: whenever the crop of the segment has
  exactly one label, \<^verbatim>\<open>int(label.split("speaker")[1])\<close> does not raise on it.
\<close>

definition lone_label_parses ::
  "('ann, 't::plus, 'd) pyannote \<Rightarrow> 'ann \<Rightarrow> 't \<Rightarrow> 't segment \<Rightarrow> bool" where
  "lone_label_parses P dia s seg \<longleftrightarrow>
     (\<forall>d l. segment_crop P dia s seg = Inr d \<and> labels P d = [l] \<longrightarrow>
        (\<exists>k. speaker_id l = Inr k))"

section \<open>The loop of \<^verbatim>\<open>identify_speakers\<close>\<close>

text \<open>The call returns a list exactly when every segment yields a caption, and the
  list holds those captions in the order of the segments.\<close>

lemma identify_loop_Inr:
  "identify_loop P d s segs acc = Inr caps \<longleftrightarrow>
     (\<exists>new. caps = acc @ new \<and>
        list_all2 (\<lambda>seg cap. segment_caption P d s seg = Inr cap) segs new)"
  by (induction segs arbitrary: acc) (auto simp: list_all2_Cons1 split: sum.splits)

lemma identify_speakers_Inr:
  "identify_speakers P tr d s = Inr caps \<longleftrightarrow>
     list_all2 (\<lambda>seg cap. segment_caption P d s seg = Inr cap) (tr_segments tr) caps"
  by (simp add: identify_speakers_def identify_loop_Inr)

lemma identify_speakers_nth:
  assumes "identify_speakers P tr d s = Inr caps" and "i < length (tr_segments tr)"
  shows "segment_caption P d s (tr_segments tr ! i) = Inr (caps ! i)"
  using assms by (simp add: identify_speakers_Inr list_all2_conv_all_nth)

section \<open>No speaker in the crop\<close>

lemma assign_speaker_none:
  "labels P dia = [] \<Longrightarrow> assign_speaker P dia txt = Inr (- 1, txt)"
  by (simp add: assign_speaker_def)

text \<open>
  Claim C4. For a segment whose crop of the diarization has no label, the caption is
  the sentinel \<open>-1\<close> with the segment's text: the loop body yields it, and it stands at
  the segment's position in every list \<open>identify_speakers\<close> returns.
\<close>

theorem no_speaker_sentinel:
  assumes "segment_crop P diarization time_shift segment = Inr dia"
    and "labels P dia = []"
  shows "segment_caption P diarization time_shift segment = Inr (- 1, seg_text segment) \<and>
         (\<forall>tr caps i. identify_speakers P tr diarization time_shift = Inr caps \<and>
            i < length (tr_segments tr) \<and> tr_segments tr ! i = segment \<longrightarrow>
            caps ! i = (- 1, seg_text segment))"
proof -
  have one: "segment_caption P diarization time_shift segment = Inr (- 1, seg_text segment)"
    using assms by (simp add: segment_caption_def assign_speaker_none)
  have "caps ! i = (- 1, seg_text segment)"
    if "identify_speakers P tr diarization time_shift = Inr caps"
      and "i < length (tr_segments tr)" and "tr_segments tr ! i = segment"
    for tr caps i
    using identify_speakers_nth[OF that(1,2)] that(3) one by simp
  with one show ?thesis by blast
qed

theorem no_speaker_sentinel_witness:
  "segment_crop intervals quiet 0 (spoken ''hi'') =
     Inr (quiet\<lparr>ia_tracks := []\<rparr>) \<and>
   labels intervals (quiet\<lparr>ia_tracks := []\<rparr>) = [] \<and>
   segment_caption intervals quiet 0 (spoken ''hi'') = Inr (- 1, ''hi'') \<and>
   identify_speakers intervals (heard ''hi'') quiet 0 = Inr [(- 1, ''hi'')]"
proof -
  let ?seg = "spoken ''hi''"
  have c: "segment_crop intervals quiet 0 ?seg = Inr (quiet\<lparr>ia_tracks := []\<rparr>)"
    by (simp add: segment_crop_def spoken_def intervals_def ia_crop_def quiet_def)
  have l: "labels intervals (quiet\<lparr>ia_tracks := []\<rparr>) = []"
    by (simp add: intervals_def ia_labels_def)
  have t: "seg_text ?seg = ''hi''"
    by (simp add: spoken_def)
  have r: "identify_speakers intervals (heard ''hi'') quiet 0 = Inr [(- 1, ''hi'')]"
    by code_simp
  show ?thesis
    using no_speaker_sentinel[OF c l] c l t r by simp
qed

section \<open>Exactly one speaker in the crop\<close>

text \<open>A digit is neither the letter that starts the separator nor whitespace, so a
  label \<^verbatim>\<open>speaker<digits>\<close> splits into the empty string and the digits, and
  \<^verbatim>\<open>int\<close> reads up to 4300 digits as the number they denote.\<close>

lemma is_digit_not_s: "is_digit c \<Longrightarrow> c \<noteq> CHR ''s''"
  by (auto simp: is_digit_def)

lemma split_from_digits:
  "\<forall>c \<in> set s. is_digit c \<Longrightarrow> split_from ''speaker'' cur s = [cur @ s]"
proof (induction s arbitrary: cur)
  case Nil
  then show ?case by simp
next
  case (Cons c cs)
  then have "c \<noteq> CHR ''s''" by (simp add: is_digit_not_s)
  then have "take (length ''speaker'') (c # cs) \<noteq> ''speaker''" by auto
  with Cons show ?case by simp
qed

lemma py_split_speaker_digits:
  "\<forall>c \<in> set ds. is_digit c \<Longrightarrow> py_split (''speaker'' @ ds) ''speaker'' = Inr [[], ds]"
  by (simp add: py_split_def split_from_digits)

lemma int_digits_all:
  "\<forall>c \<in> set ds. is_digit c \<Longrightarrow> int_digits acc ds = Some (dec_value acc ds)"
  unfolding dec_value_def
  by (induction acc ds rule: int_digits.induct) auto

lemma is_digit_not_space: "is_digit c \<Longrightarrow> \<not> is_space c"
  by (auto simp: is_digit_def is_space_def Let_def)

lemma strip_digits:
  assumes "\<forall>c \<in> set ds. is_digit c"
  shows "strip ds = ds"
proof (cases ds rule: rev_cases)
  case Nil
  then show ?thesis by (simp add: strip_def)
next
  case (snoc ys y)
  with assms have y: "\<not> is_space y" by (simp add: is_digit_not_space)
  have "dropWhile is_space ds = ds"
    using assms by (cases ds) (auto simp: is_digit_not_space)
  then show ?thesis using y snoc by (simp add: strip_def)
qed

lemma py_int_digits:
  assumes "\<forall>c \<in> set ds. is_digit c" and "ds \<noteq> []" and "length ds \<le> int_max_str_digits"
  shows "py_int ds = Inr (int (dec_value 0 ds))"
proof -
  obtain d rest where ds: "ds = d # rest" using assms(2) by (cases ds) auto
  have d: "is_digit d" using assms(1) ds by simp
  then have sign: "d \<noteq> CHR ''-''" "d \<noteq> CHR ''+''" by (auto simp: is_digit_def)
  have rest: "int_digits (digit_val d) rest = Some (dec_value (digit_val d) rest)"
    using assms(1) ds by (simp add: int_digits_all)
  have s: "strip (d # rest) = d # rest" using strip_digits[OF assms(1)] ds by simp
  have "filter is_digit ds = ds" using assms(1) by simp
  with assms(3) ds have count: "\<not> int_max_str_digits < length (filter is_digit (d # rest))"
    by simp
  show ?thesis unfolding ds
    using count by (simp add: py_int_def s d sign rest dec_value_def)
qed

lemma speaker_id_digits:
  assumes "\<forall>c \<in> set ds. is_digit c" and "ds \<noteq> []" and "length ds \<le> int_max_str_digits"
  shows "speaker_id (''speaker'' @ ds) = Inr (int (dec_value 0 ds))"
proof -
  have "py_split (''speaker'' @ ds) ''speaker'' = Inr [[], ds]"
    using assms(1) by (rule py_split_speaker_digits)
  then show ?thesis
    by (simp add: speaker_id_def py_index_def py_int_digits[OF assms])
qed

lemma digit_char:
  "k < 10 \<Longrightarrow> is_digit (char_of (48 + k)) \<and> digit_val (char_of (48 + k)) = k"
  by (simp add: is_digit_def digit_val_def)

lemma decimal_digits: "\<forall>c \<in> set (decimal n). is_digit c"
proof (induction n rule: decimal.induct)
  case (1 n)
  show ?case
  proof (cases "n < 10")
    case True
    then show ?thesis by (simp add: decimal.simps[of n] digit_char)
  next
    case False
    have "is_digit (char_of (48 + n mod 10))" by (simp add: digit_char)
    with False 1 show ?thesis by (simp add: decimal.simps[of n])
  qed
qed

lemma decimal_nonempty: "decimal n \<noteq> []"
  by (simp add: decimal.simps[of n])

lemma dec_value_snoc: "dec_value acc (ds @ [c]) = 10 * dec_value acc ds + digit_val c"
  by (simp add: dec_value_def)

lemma dec_value_decimal: "dec_value 0 (decimal n) = n"
proof (induction n rule: decimal.induct)
  case (1 n)
  show ?case
  proof (cases "n < 10")
    case True
    then show ?thesis by (simp add: decimal.simps[of n] dec_value_def digit_char)
  next
    case False
    with 1 have "dec_value 0 (decimal (n div 10)) = n div 10" by simp
    with False show ?thesis
      by (simp add: decimal.simps[of n] dec_value_snoc digit_char)
  qed
qed

lemma speaker_id_label:
  assumes "speaker_label n = Inr l"
  shows "speaker_id l = Inr (int n)"
proof -
  from assms have l: "l = ''speaker'' @ decimal n"
    and len: "length (decimal n) \<le> int_max_str_digits"
    by (auto simp: speaker_label_def py_str_def split: if_splits)
  show ?thesis
    unfolding l
    using speaker_id_digits[OF decimal_digits decimal_nonempty len]
    by (simp add: dec_value_decimal)
qed

lemma assign_speaker_one:
  "labels P dia = [l] \<Longrightarrow>
   assign_speaker P dia txt =
     (case speaker_id l of Inl e \<Rightarrow> Inl e | Inr spk_id \<Rightarrow> Inr (spk_id, txt))"
  by (simp add: assign_speaker_def)

lemma identify_speakers_raises:
  assumes "segment \<in> set (tr_segments tr)"
    and "segment_caption P diarization time_shift segment = Inl e"
  shows "\<exists>e'. identify_speakers P tr diarization time_shift = Inl e'"
proof (cases "identify_speakers P tr diarization time_shift")
  case (Inl e')
  then show ?thesis by blast
next
  case (Inr caps)
  from assms(1) obtain i where i: "i < length (tr_segments tr)" "tr_segments tr ! i = segment"
    by (auto simp: in_set_conv_nth)
  from identify_speakers_nth[OF Inr i(1)] i(2) assms(2) show ?thesis
    by simp
qed

text \<open>
  Claim C5, amended. Let the crop of a segment have exactly one label. When
  \<^verbatim>\<open>int(label.split("speaker")[1])\<close> returns \<open>k\<close> on that label, the caption is
  \<open>k\<close> with the segment's text: the loop body yields it, and it stands at the
  segment's position in every list \<open>identify_speakers\<close> returns. When the expression
  raises on the label, the loop body raises the same exception and
  \<open>identify_speakers\<close> returns no list for a transcription that holds the segment.
  The expression returns the number the digits denote on a label
  \<^verbatim>\<open>speaker<digits>\<close> of one to 4300 decimal digits, so it returns \<open>n\<close> on the
  label \<^verbatim>\<open>f"speaker{n}"\<close>.
\<close>

theorem single_speaker_label:
  assumes "segment_crop P diarization time_shift segment = Inr dia"
    and "labels P dia = [l]"
  shows "(speaker_id l = Inr k \<longrightarrow>
            segment_caption P diarization time_shift segment = Inr (k, seg_text segment) \<and>
            (\<forall>tr caps i. identify_speakers P tr diarization time_shift = Inr caps \<and>
               i < length (tr_segments tr) \<and> tr_segments tr ! i = segment \<longrightarrow>
               caps ! i = (k, seg_text segment))) \<and>
         (speaker_id l = Inl e \<longrightarrow>
            segment_caption P diarization time_shift segment = Inl e \<and>
            (\<forall>tr. segment \<in> set (tr_segments tr) \<longrightarrow>
               (\<exists>e'. identify_speakers P tr diarization time_shift = Inl e'))) \<and>
         (l = ''speaker'' @ ds \<and> ds \<noteq> [] \<and> (\<forall>c \<in> set ds. is_digit c) \<and>
          length ds \<le> int_max_str_digits \<longrightarrow>
            segment_caption P diarization time_shift segment =
              Inr (int (dec_value 0 ds), seg_text segment)) \<and>
         (speaker_label n = Inr l \<longrightarrow>
            segment_caption P diarization time_shift segment = Inr (int n, seg_text segment))"
proof -
  have body: "segment_caption P diarization time_shift segment =
      (case speaker_id l of Inl e \<Rightarrow> Inl e | Inr spk_id \<Rightarrow> Inr (spk_id, seg_text segment))"
    using assms by (simp add: segment_caption_def assign_speaker_one)
  have returned: "caps ! i = (k, seg_text segment)"
    if "speaker_id l = Inr k" and "identify_speakers P tr diarization time_shift = Inr caps"
      and "i < length (tr_segments tr)" and "tr_segments tr ! i = segment"
    for tr caps i
    using identify_speakers_nth[OF that(2,3)] that(1,4) body by simp
  have raised: "\<exists>e'. identify_speakers P tr diarization time_shift = Inl e'"
    if "speaker_id l = Inl e" and "segment \<in> set (tr_segments tr)" for tr
    using identify_speakers_raises[OF that(2), of P diarization time_shift e] that(1) body
    by simp
  have digits: "segment_caption P diarization time_shift segment =
      Inr (int (dec_value 0 ds), seg_text segment)"
    if "l = ''speaker'' @ ds" "ds \<noteq> []" "\<forall>c \<in> set ds. is_digit c"
      "length ds \<le> int_max_str_digits"
    using speaker_id_digits[OF that(3,2,4)] that(1) body by simp
  have label: "segment_caption P diarization time_shift segment = Inr (int n, seg_text segment)"
    if "speaker_label n = Inr l"
    using speaker_id_label[OF that] body by simp
  from body returned raised digits label show ?thesis
    by (intro conjI impI allI) (simp_all, blast+)
qed

text \<open>
  Four lone labels: \<^verbatim>\<open>speaker007\<close> is read as 7 and \<^verbatim>\<open>speaker-3\<close> as -3;
  \<^verbatim>\<open>speaker2\<close> is the label of speaker 2; on \<^verbatim>\<open>speakerA\<close> the expression,
  the loop body and the call raise ValueError.
\<close>

theorem single_speaker_label_witness:
  "segment_crop intervals (one_voice ''speaker007'') 0 (spoken ''hi'') =
     Inr (ia_crop (one_voice ''speaker007'') (Segment (1 / 4) (3 / 4))) \<and>
   labels intervals (ia_crop (one_voice ''speaker007'') (Segment (1 / 4) (3 / 4))) =
     [''speaker007''] \<and>
   speaker_id ''speaker007'' = Inr 7 \<and>
   length ''007'' \<le> int_max_str_digits \<and>
   dec_value 0 ''007'' = 7 \<and>
   segment_caption intervals (one_voice ''speaker007'') 0 (spoken ''hi'') = Inr (7, ''hi'') \<and>
   identify_speakers intervals (heard ''hi'') (one_voice ''speaker007'') 0 = Inr [(7, ''hi'')] \<and>
   speaker_id ''speaker-3'' = Inr (- 3) \<and>
   segment_caption intervals (one_voice ''speaker-3'') 0 (spoken ''hi'') = Inr (- 3, ''hi'') \<and>
   speaker_label 2 = Inr ''speaker2'' \<and>
   segment_caption intervals (one_voice ''speaker2'') 0 (spoken ''hi'') = Inr (2, ''hi'') \<and>
   speaker_id ''speakerA'' = Inl ValueError \<and>
   segment_caption intervals (one_voice ''speakerA'') 0 (spoken ''hi'') = Inl ValueError \<and>
   identify_speakers intervals (heard ''hi'') (one_voice ''speakerA'') 0 = Inl ValueError"
proof -
  have c: "segment_crop intervals (one_voice l) 0 (spoken ''hi'') =
      Inr (ia_crop (one_voice l) (Segment (1 / 4) (3 / 4)))" for l
    by (simp add: segment_crop_def spoken_def intervals_def)
  have ls: "labels intervals (ia_crop (one_voice l) (Segment (1 / 4) (3 / 4))) = [l]" for l
    by (simp add: intervals_def ia_labels_def ia_crop_def one_voice_def)
  have t: "seg_text (spoken ''hi'') = ''hi''"
    by (simp add: spoken_def)
  have i7: "speaker_id ''speaker007'' = Inr 7"
    by code_simp
  have d7: "dec_value 0 ''007'' = 7" "length ''007'' \<le> int_max_str_digits"
    by code_simp+
  have i3: "speaker_id ''speaker-3'' = Inr (- 3)"
    by code_simp
  have l2: "speaker_label 2 = Inr ''speaker2''"
    by code_simp
  have iA: "speaker_id ''speakerA'' = Inl ValueError"
    by code_simp
  have r7: "identify_speakers intervals (heard ''hi'') (one_voice ''speaker007'') 0 =
      Inr [(7, ''hi'')]"
    by code_simp
  have rA: "identify_speakers intervals (heard ''hi'') (one_voice ''speakerA'') 0 =
      Inl ValueError"
    by code_simp
  note s7 = single_speaker_label[OF c ls, of "''speaker007''" 7]
  note s3 = single_speaker_label[OF c ls, of "''speaker-3''" "- 3"]
  note s2 = single_speaker_label[OF c ls, of "''speaker2''" _ _ _ 2]
  note sA = single_speaker_label[OF c ls, of "''speakerA''" _ ValueError]
  from s7 i7 t have c7: "segment_caption intervals (one_voice ''speaker007'') 0 (spoken ''hi'') =
      Inr (7, ''hi'')"
    by simp
  from s3 i3 t have c3: "segment_caption intervals (one_voice ''speaker-3'') 0 (spoken ''hi'') =
      Inr (- 3, ''hi'')"
    by simp
  from s2 l2 t have c2: "segment_caption intervals (one_voice ''speaker2'') 0 (spoken ''hi'') =
      Inr (2, ''hi'')"
    by simp
  from sA iA have cA: "segment_caption intervals (one_voice ''speakerA'') 0 (spoken ''hi'') =
      Inl ValueError"
    by simp
  from c[of "''speaker007''"] ls[of "''speaker007''"] i7 d7 c7 r7 i3 c3 l2 c2 iA cA rA
  show ?thesis
    by simp
qed

text \<open>
  The claim as stated fails for a lone label without an integer after
  \<^verbatim>\<open>speaker\<close>: the crop has the one label \<^verbatim>\<open>SPEAKER_00\<close>, and no speaker is
  assigned, since \<^verbatim>\<open>split("speaker")[1]\<close> raises IndexError.
\<close>

theorem single_speaker_counterexample:
  "segment_crop intervals offline 0 (spoken ''hi'') =
     Inr (ia_crop offline (Segment (1 / 4) (3 / 4))) \<and>
   labels intervals (ia_crop offline (Segment (1 / 4) (3 / 4))) = [''SPEAKER_00''] \<and>
   segment_caption intervals offline 0 (spoken ''hi'') = Inl IndexError"
  by code_simp

section \<open>The crop of a segment\<close>

lemma segment_crop_words:
  assumes "seg_words segment \<noteq> []"
  shows "segment_crop P diarization time_shift segment =
     Inr (crop P diarization
            (Segment (time_shift + word_start (hd (seg_words segment)))
                     (time_shift + word_end (last (seg_words segment)))))"
  using assms by (cases "seg_words segment") (simp_all add: segment_crop_def)

lemma call_result:
  "fst (call W P self diarization waveform) =
     identify_speakers P (transcribe W self waveform) diarization
       (sw_start (sliding_window waveform))"
  by (simp add: call_def Let_def)

text \<open>
  Claim C8. For a segment with words, the diarization is cropped to the interval from
  \<open>time_shift\<close> plus the start of the first word to \<open>time_shift\<close> plus the end of the
  last word, and the speaker is selected on that crop alone: the loop body is
  \<open>assign_speaker\<close> on the crop, the caption at the segment's position in a returned
  list is its result, and \<^verbatim>\<open>__call__\<close> passes the start of the waveform's
  sliding window as \<open>time_shift\<close>.
\<close>

theorem crop_interval:
  assumes "seg_words segment \<noteq> []"
    and "dia = crop P diarization
                 (Segment (time_shift + word_start (hd (seg_words segment)))
                          (time_shift + word_end (last (seg_words segment))))"
  shows "segment_crop P diarization time_shift segment = Inr dia \<and>
         segment_caption P diarization time_shift segment =
           assign_speaker P dia (seg_text segment) \<and>
         (\<forall>tr caps i. identify_speakers P tr diarization time_shift = Inr caps \<and>
            i < length (tr_segments tr) \<and> tr_segments tr ! i = segment \<longrightarrow>
            assign_speaker P dia (seg_text segment) = Inr (caps ! i)) \<and>
         (\<forall>W self waveform. time_shift = sw_start (sliding_window waveform) \<longrightarrow>
            fst (call W P self diarization waveform) =
              identify_speakers P (transcribe W self waveform) diarization time_shift)"
proof -
  have c: "segment_crop P diarization time_shift segment = Inr dia"
    using assms by (simp add: segment_crop_words)
  then have one: "segment_caption P diarization time_shift segment =
      assign_speaker P dia (seg_text segment)"
    by (simp add: segment_caption_def)
  have "assign_speaker P dia (seg_text segment) = Inr (caps ! i)"
    if "identify_speakers P tr diarization time_shift = Inr caps"
      and "i < length (tr_segments tr)" and "tr_segments tr ! i = segment"
    for tr caps i
    using identify_speakers_nth[OF that(1,2)] that(3) one by simp
  moreover have "\<forall>W self waveform. time_shift = sw_start (sliding_window waveform) \<longrightarrow>
      fst (call W P self diarization waveform) =
        identify_speakers P (transcribe W self waveform) diarization time_shift"
    by (simp add: call_result)
  ultimately show ?thesis
    using c one by blast
qed

text \<open>The words of the example run from 1/4 to 3/4; shifted by 1/2 the crop is 3/4 to 5/4.\<close>

theorem crop_interval_witness:
  "seg_words (spoken ''hi'') \<noteq> [] \<and>
   segment_crop intervals two_voices (1 / 2) (spoken ''hi'') =
     Inr (crop intervals two_voices (Segment (3 / 4) (5 / 4))) \<and>
   segment_caption intervals two_voices (1 / 2) (spoken ''hi'') = Inr (2, ''hi'') \<and>
   fst (call recogniser intervals \<lparr>model = ''small'', buffer = []\<rparr> two_voices (recording (1 / 2))) =
     Inr [(2, '' hello'')]"
proof -
  have w: "seg_words (spoken ''hi'') \<noteq> []"
    by (simp add: spoken_def)
  have d: "crop intervals two_voices (Segment (3 / 4) (5 / 4)) =
      crop intervals two_voices
        (Segment (1 / 2 + word_start (hd (seg_words (spoken ''hi''))))
                 (1 / 2 + word_end (last (seg_words (spoken ''hi'')))))"
    by (simp add: spoken_def)
  have a: "assign_speaker intervals (crop intervals two_voices (Segment (3 / 4) (5 / 4)))
      (seg_text (spoken ''hi'')) = Inr (2, ''hi'')"
    by code_simp
  have r: "fst (call recogniser intervals \<lparr>model = ''small'', buffer = []\<rparr> two_voices
      (recording (1 / 2))) = Inr [(2, '' hello'')]"
    by code_simp
  note ci = crop_interval[OF w d]
  have c: "segment_crop intervals two_voices (1 / 2) (spoken ''hi'') =
      Inr (crop intervals two_voices (Segment (3 / 4) (5 / 4)))"
    using ci by (rule conjunct1)
  have "segment_caption intervals two_voices (1 / 2) (spoken ''hi'') =
      assign_speaker intervals (crop intervals two_voices (Segment (3 / 4) (5 / 4)))
        (seg_text (spoken ''hi''))"
    using ci by blast
  with a have s: "segment_caption intervals two_voices (1 / 2) (spoken ''hi'') = Inr (2, ''hi'')"
    by simp
  from w c s r show ?thesis
    by blast
qed

section \<open>One caption per segment\<close>

lemma assign_speaker_text:
  "assign_speaker P dia txt = Inr cap \<Longrightarrow> snd cap = txt"
  by (auto simp: assign_speaker_def Let_def split: if_splits sum.splits)

lemma segment_caption_Inr:
  assumes "segment_caption P d s seg = Inr cap"
  shows "snd cap = seg_text seg \<and> seg_words seg \<noteq> []"
  using assms
  by (auto simp: segment_caption_def segment_crop_def dest: assign_speaker_text
      split: sum.splits list.splits)

lemma assign_speaker_total:
  assumes "\<And>l. labels P d = [l] \<Longrightarrow> \<exists>k. speaker_id l = Inr k"
  shows "\<exists>cap. assign_speaker P d txt = Inr cap"
proof (cases "labels P d")
  case Nil
  then show ?thesis by (simp add: assign_speaker_none)
next
  case (Cons l ls)
  show ?thesis
  proof (cases ls)
    case Nil
    with Cons assms obtain k where "speaker_id l = Inr k" by auto
    with Cons Nil show ?thesis by (simp add: assign_speaker_one)
  next
    case (Cons l' ls')
    with \<open>labels P d = l # ls\<close> show ?thesis
      by (simp add: assign_speaker_def np_argmax_def)
  qed
qed

lemma segment_caption_total:
  assumes "seg_words seg \<noteq> []" and "lone_label_parses P dia s seg"
  shows "\<exists>cap. segment_caption P dia s seg = Inr cap"
proof -
  obtain d where d: "segment_crop P dia s seg = Inr d"
    using assms(1) by (simp add: segment_crop_words)
  have "\<exists>cap. assign_speaker P d (seg_text seg) = Inr cap"
    using assms(2) d by (intro assign_speaker_total) (auto simp: lone_label_parses_def)
  with d show ?thesis by (simp add: segment_caption_def)
qed

lemma segment_caption_no_words:
  "seg_words seg = [] \<Longrightarrow> segment_caption P dia s seg = Inl IndexError"
  by (simp add: segment_caption_def segment_crop_def)

lemma identify_loop_total:
  assumes "\<forall>seg \<in> set segs. seg_words seg \<noteq> [] \<and> lone_label_parses P dia s seg"
  shows "\<exists>caps. identify_loop P dia s segs acc = Inr caps"
  using assms
proof (induction segs arbitrary: acc)
  case Nil
  then show ?case by simp
next
  case (Cons seg segs)
  then obtain cap where "segment_caption P dia s seg = Inr cap"
    using segment_caption_total[of seg P dia s] by auto
  with Cons show ?case by simp
qed

lemma identify_loop_no_words:
  assumes "\<forall>seg \<in> set segs. lone_label_parses P dia s seg"
    and "\<exists>seg \<in> set segs. seg_words seg = []"
  shows "identify_loop P dia s segs acc = Inl IndexError"
  using assms
proof (induction segs arbitrary: acc)
  case Nil
  then show ?case by simp
next
  case (Cons seg segs)
  show ?case
  proof (cases "seg_words seg = []")
    case True
    then show ?thesis by (simp add: segment_caption_no_words)
  next
    case False
    with Cons.prems obtain cap where cap: "segment_caption P dia s seg = Inr cap"
      using segment_caption_total[of seg P dia s] by auto
    from False Cons.prems have "\<exists>seg \<in> set segs. seg_words seg = []" by auto
    with Cons cap show ?thesis by simp
  qed
qed

text \<open>
  Claim C10, amended. Let every label that stands alone in the crop of a segment be one
  the single-speaker branch can read (as the labels \<^verbatim>\<open>speaker<n>\<close> are). Then a
  returned list has one caption per segment, in the order of the segments and with
  each segment's text unchanged; the call returns when every segment has a word; and
  it raises IndexError when some segment has none.
\<close>

theorem one_caption_per_segment:
  assumes "\<forall>seg \<in> set (tr_segments tr). lone_label_parses P dia s seg"
  shows "(identify_speakers P tr dia s = Inr caps \<longrightarrow>
            length caps = length (tr_segments tr) \<and>
            map snd caps = map seg_text (tr_segments tr)) \<and>
         ((\<forall>seg \<in> set (tr_segments tr). seg_words seg \<noteq> []) \<longrightarrow>
            (\<exists>caps'. identify_speakers P tr dia s = Inr caps')) \<and>
         ((\<exists>seg \<in> set (tr_segments tr). seg_words seg = []) \<longrightarrow>
            identify_speakers P tr dia s = Inl IndexError)"
proof (intro conjI impI)
  assume r: "identify_speakers P tr dia s = Inr caps"
  then have all2: "list_all2 (\<lambda>seg cap. segment_caption P dia s seg = Inr cap) (tr_segments tr) caps"
    by (simp add: identify_speakers_Inr)
  then show "length caps = length (tr_segments tr)"
    by (simp add: list_all2_lengthD)
  have "list_all2 (\<lambda>seg cap. seg_text seg = snd cap) (tr_segments tr) caps"
    using all2 by (rule list_all2_mono) (simp add: segment_caption_Inr)
  then show "map snd caps = map seg_text (tr_segments tr)"
    by (induction rule: list_all2_induct) simp_all
next
  assume "\<forall>seg \<in> set (tr_segments tr). seg_words seg \<noteq> []"
  with assms show "\<exists>caps'. identify_speakers P tr dia s = Inr caps'"
    by (simp add: identify_speakers_def identify_loop_total)
next
  assume "\<exists>seg \<in> set (tr_segments tr). seg_words seg = []"
  with assms show "identify_speakers P tr dia s = Inl IndexError"
    by (simp add: identify_speakers_def identify_loop_no_words)
qed

text \<open>
  The claim as stated fails for a diarization with other labels: the segment has a
  word, the crop has the one label \<^verbatim>\<open>SPEAKER_00\<close>, and the call raises IndexError
  at \<^verbatim>\<open>split("speaker")[1]\<close>.
\<close>

theorem one_caption_counterexample:
  "seg_words (spoken ''hi'') \<noteq> [] \<and>
   tr_segments (heard ''hi'') = [spoken ''hi''] \<and>
   identify_speakers intervals (heard ''hi'') offline 0 = Inl IndexError"
  by code_simp

theorem one_caption_per_segment_witness:
  "identify_speakers intervals (heard ''hi'') two_voices (1 / 2) = Inr [(2, ''hi'')] \<and>
   length [(2 :: int, ''hi'')] = length (tr_segments (heard ''hi'')) \<and>
   map snd [(2 :: int, ''hi'')] = map seg_text (tr_segments (heard ''hi'')) \<and>
   identify_speakers intervals
     \<lparr>tr_segments = [spoken ''hi'', \<lparr>seg_words = [], seg_text = ''ho''\<rparr>], tr_text = ''hi ho''\<rparr>
     two_voices (1 / 2) = Inl IndexError"
proof -
  let ?dia = "two_voices\<lparr>ia_tracks := [(3 / 4, 5 / 4, ''speaker2'')]\<rparr>"
  let ?tr = "\<lparr>tr_segments = [spoken ''hi'', \<lparr>seg_words = [], seg_text = ''ho''\<rparr>], tr_text = ''hi ho''\<rparr>"
  have c: "segment_crop intervals two_voices (1 / 2) (spoken ''hi'') = Inr ?dia"
    by (simp add: segment_crop_def spoken_def intervals_def ia_crop_def two_voices_def)
  have l: "labels intervals ?dia = [''speaker2'']"
    by code_simp
  have k: "speaker_id ''speaker2'' = Inr 2"
    by code_simp
  have p: "lone_label_parses intervals two_voices (1 / 2) (spoken ''hi'')"
    using c l k by (simp add: lone_label_parses_def)
  have q: "lone_label_parses intervals two_voices (1 / 2) \<lparr>seg_words = [], seg_text = ''ho''\<rparr>"
    by (simp add: lone_label_parses_def segment_crop_def)
  have h1: "\<forall>seg \<in> set (tr_segments (heard ''hi'')). lone_label_parses intervals two_voices (1 / 2) seg"
    using p by (simp add: heard_def)
  have h2: "\<forall>seg \<in> set (tr_segments ?tr). lone_label_parses intervals two_voices (1 / 2) seg"
    using p q by simp
  have r: "identify_speakers intervals (heard ''hi'') two_voices (1 / 2) = Inr [(2, ''hi'')]"
    by code_simp
  show ?thesis
    using one_caption_per_segment[OF h1, of "[(2, ''hi'')]"] one_caption_per_segment[OF h2] r
    by (simp add: heard_def)
qed

section \<open>\<^verbatim>\<open>colorize_transcription\<close>: the colour of a speaker\<close>

lemma length_palette: "length palette = 10"
  by (simp add: palette_def)

lemma colors_twice: "colors = palette @ palette"
  by (simp add: colors_def numeral_2_eq_2)

lemma py_index_colors:
  assumes "0 \<le> s" and "s < 20"
  shows "py_index colors s = Inr (palette ! (nat s mod 10))"
proof (cases "s < 10")
  case True
  with assms show ?thesis
    by (simp add: py_index_def colors_twice length_palette nth_append)
next
  case False
  with assms have "nat s mod 10 = nat s - 10"
    by (simp add: mod_if)
  with False assms show ?thesis
    by (simp add: py_index_def colors_twice length_palette nth_append)
qed

lemma py_index_colors_out: "20 \<le> s \<Longrightarrow> py_index colors s = Inl IndexError"
  by (simp add: py_index_def colors_twice length_palette)

lemma colorize_loop_in_range:
  assumes "\<forall>(speaker, txt) \<in> set transcription. speaker = - 1 \<or> (0 \<le> speaker \<and> speaker < 20)"
  shows "colorize_loop transcription result =
     Inr (result @ map (\<lambda>(speaker, txt).
            if speaker = - 1 then txt
            else ''['' @ palette ! (nat speaker mod 10) @ '']'' @ txt) transcription)"
  using assms
proof (induction transcription result rule: colorize_loop.induct)
  case (1 acc)
  then show ?case by simp
next
  case (2 speaker t rest acc)
  show ?case
  proof (cases "speaker = - 1")
    case True
    with 2 show ?thesis by simp
  next
    case False
    with "2.prems" have "py_index colors speaker = Inr (palette ! (nat speaker mod 10))"
      by (simp add: py_index_colors)
    with False 2 show ?thesis by simp
  qed
qed

lemma colorize_loop_error: "colorize_loop transcription acc = Inl e \<Longrightarrow> e = IndexError"
  by (induction transcription acc rule: colorize_loop.induct)
    (auto simp: py_index_def split: if_splits sum.splits)

lemma colorize_loop_out_of_range:
  "\<exists>(speaker, txt) \<in> set transcription. 20 \<le> speaker \<Longrightarrow>
   \<exists>e. colorize_loop transcription acc = Inl e"
proof (induction transcription acc rule: colorize_loop.induct)
  case (1 acc)
  then show ?case by simp
next
  case (2 speaker t rest acc)
  show ?case
  proof (cases "20 \<le> speaker")
    case True
    then show ?thesis by (simp add: py_index_colors_out)
  next
    case False
    with "2.prems" have rest: "\<exists>(speaker, txt) \<in> set rest. 20 \<le> speaker" by auto
    show ?thesis
    proof (cases "speaker = - 1")
      case True
      with 2 rest show ?thesis by simp
    next
      case False
      with 2 rest show ?thesis by (cases "py_index colors speaker") simp_all
    qed
  qed
qed

text \<open>
  Claim C2, amended. The function is a function of the caption list alone. When every
  speaker id is \<open>-1\<close> or lies in \<open>0 .. 19\<close>, the result is the captions joined by
  newlines, a caption with id \<open>s\<close> in \<open>0 .. 19\<close> written as
  \<^verbatim>\<open>[colour]text\<close> with the palette entry at position \<open>s mod 10\<close> of the ten
  colours, and a caption with id \<open>-1\<close> written as its text alone. When some speaker id
  is 20 or more, the function raises IndexError.
\<close>

theorem colorize_palette:
  "((\<forall>(speaker, txt) \<in> set transcription. speaker = - 1 \<or> (0 \<le> speaker \<and> speaker < 20)) \<longrightarrow>
      colorize_transcription transcription =
        Inr (py_join [CHR 0x0A]
               (map (\<lambda>(speaker, txt).
                  if speaker = - 1 then txt
                  else ''['' @ palette ! (nat speaker mod 10) @ '']'' @ txt) transcription))) \<and>
   ((\<exists>(speaker, txt) \<in> set transcription. 20 \<le> speaker) \<longrightarrow>
      colorize_transcription transcription = Inl IndexError) \<and>
   length palette = 10"
proof (intro conjI impI)
  assume "\<forall>(speaker, txt) \<in> set transcription. speaker = - 1 \<or> (0 \<le> speaker \<and> speaker < 20)"
  then show "colorize_transcription transcription =
      Inr (py_join [CHR 0x0A]
             (map (\<lambda>(speaker, txt).
                if speaker = - 1 then txt
                else ''['' @ palette ! (nat speaker mod 10) @ '']'' @ txt) transcription))"
    by (simp add: colorize_transcription_def colorize_loop_in_range)
next
  assume "\<exists>(speaker, txt) \<in> set transcription. 20 \<le> speaker"
  from colorize_loop_out_of_range[OF this, of "[]"] obtain e
    where e: "colorize_loop transcription [] = Inl e" by blast
  then have "e = IndexError" by (rule colorize_loop_error)
  with e show "colorize_transcription transcription = Inl IndexError"
    by (simp add: colorize_transcription_def)
next
  show "length palette = 10" by (rule length_palette)
qed

text \<open>Ids 13 and 3 share the fourth colour and the caption of the sentinel is bare; id 25
  raises.\<close>

theorem colorize_palette_witness:
  "(0 \<le> (13 :: int) \<and> (13 :: int) < 20) \<and>
   colorize_transcription [(13, ''yes''), (- 1, ''hm''), (3, ''no'')] =
     Inr (''[orange3]yes'' @ [CHR 0x0A] @ ''hm'' @ [CHR 0x0A] @ ''[orange3]no'') \<and>
   (20 :: int) \<le> 25 \<and>
   colorize_transcription [(0, ''yes''), (25, ''no'')] = Inl IndexError"
proof -
  have h: "\<forall>(speaker, txt) \<in> set [(13 :: int, ''yes''), (- 1, ''hm''), (3, ''no'')].
      speaker = - 1 \<or> (0 \<le> speaker \<and> speaker < 20)"
    by simp
  have g: "\<exists>(speaker, txt) \<in> set [(0 :: int, ''yes''), (25, ''no'')]. 20 \<le> speaker"
    by simp
  have p: "palette ! (nat 13 mod 10) = ''orange3''" "palette ! (nat 3 mod 10) = ''orange3''"
    by (simp_all add: palette_def)
  from colorize_palette[of "[(13, ''yes''), (- 1, ''hm''), (3, ''no'')]"] h
  have "colorize_transcription [(13, ''yes''), (- 1, ''hm''), (3, ''no'')] =
      Inr (py_join [CHR 0x0A]
             (map (\<lambda>(speaker, txt).
                if speaker = - 1 then txt
                else ''['' @ palette ! (nat speaker mod 10) @ '']'' @ txt)
                [(13, ''yes''), (- 1, ''hm''), (3, ''no'')]))"
    by blast
  with p have a: "colorize_transcription [(13, ''yes''), (- 1, ''hm''), (3, ''no'')] =
      Inr (''[orange3]yes'' @ [CHR 0x0A] @ ''hm'' @ [CHR 0x0A] @ ''[orange3]no'')"
    by simp
  from colorize_palette[of "[(0, ''yes''), (25, ''no'')]"] g
  have b: "colorize_transcription [(0, ''yes''), (25, ''no'')] = Inl IndexError"
    by blast
  from a b show ?thesis
    by simp
qed

text \<open>
  The claim as stated fails at id 20: the list of colours has twenty entries and no
  modulo is taken, so \<^verbatim>\<open>colors[20]\<close> raises IndexError where the claim promises
  the entry at position \<open>20 mod 10\<close>.
\<close>

theorem colorize_counterexample:
  "colorize_transcription [(20, ''hi'')] = Inl IndexError \<and>
   colorize_transcription [(20, ''hi'')] \<noteq> Inr (''['' @ palette ! (20 mod 10) @ '']'' @ ''hi'')"
  by (simp add: colorize_transcription_def py_index_colors_out)

section \<open>\<^verbatim>\<open>concat\<close>: the merged chunk\<close>

lemma concat_loop_eq:
  "concat_loop P chunks annotation arrays =
     (foldl (update P) annotation (map fst chunks), arrays @ map (\<lambda>(ann, wav). data wav) chunks)"
  by (induction P chunks annotation arrays rule: concat_loop.induct) simp_all

lemma concat_chunks_nonempty:
  assumes "chunks \<noteq> []"
  shows "concat_chunks P chunks collar =
     Inr (support P (foldl (update P) (new_annotation P (uri P (fst (hd chunks)))) (map fst chunks))
            collar,
          \<lparr>data = concat (map (\<lambda>(ann, wav). data wav) chunks),
           sliding_window = sliding_window (snd (hd chunks))\<rparr>)"
  using assms
  by (cases chunks) (simp_all add: concat_chunks_def concat_loop_eq np_concatenate_def Let_def)

lemma length_concat_sum: "length (concat xss) = sum_list (map length xss)"
  by (induction xss) simp_all

text \<open>
  Claim C6. For a non-empty list of chunks, \<^verbatim>\<open>concat\<close> returns a waveform whose
  samples are the samples of the chunks' waveforms concatenated in the order of the
  list, so their number is the sum of the chunks' sample counts.
\<close>

theorem concat_samples:
  assumes "chunks \<noteq> []"
  shows "\<exists>annotation waveform. concat_chunks P chunks collar = Inr (annotation, waveform) \<and>
           data waveform = concat (map (\<lambda>(ann, wav). data wav) chunks) \<and>
           length (data waveform) = sum_list (map (\<lambda>(ann, wav). length (data wav)) chunks)"
proof -
  have "length (concat (map (\<lambda>(ann, wav). data wav) chunks)) =
      sum_list (map (\<lambda>(ann, wav). length (data wav)) chunks)"
    by (simp add: length_concat_sum comp_def case_prod_unfold)
  with concat_chunks_nonempty[OF assms, of P collar] show ?thesis
    by simp
qed

text \<open>Two chunks of three samples each give six samples, first chunk first.\<close>

theorem concat_samples_witness:
  "[(quiet, recording 0), (two_voices, recording (1 / 2))] \<noteq> [] \<and>
   (\<exists>annotation waveform.
      concat_chunks intervals [(quiet, recording 0), (two_voices, recording (1 / 2))] (1 / 20) =
        Inr (annotation, waveform) \<and>
      data waveform = [0, 1 / 8, - 1 / 8, 0, 1 / 8, - 1 / 8] \<and>
      length (data waveform) = 3 + 3)"
proof -
  have ne: "[(quiet, recording 0), (two_voices, recording (1 / 2))] \<noteq> []"
    by simp
  from concat_samples[OF ne, of intervals "1 / 20"] obtain annotation waveform
    where r: "concat_chunks intervals [(quiet, recording 0), (two_voices, recording (1 / 2))]
        (1 / 20) = Inr (annotation, waveform)"
      and d: "data waveform =
        concat (map (\<lambda>(ann, wav). data wav) [(quiet, recording 0), (two_voices, recording (1 / 2))])"
      and n: "length (data waveform) =
        sum_list (map (\<lambda>(ann, wav). length (data wav))
          [(quiet, recording 0), (two_voices, recording (1 / 2))])"
    by blast
  from d have d': "data waveform = [0, 1 / 8, - 1 / 8, 0, 1 / 8, - 1 / 8]"
    by (simp add: recording_def)
  from n have n': "length (data waveform) = 3 + 3"
    by (simp add: recording_def)
  from ne r d' n' show ?thesis
    by blast
qed

lemma groups_of_nonempty:
  "batch \<in> set (groups_of count xs) \<Longrightarrow> batch \<noteq> [] \<and> length batch \<le> count"
proof (induction count xs rule: groups_of.induct)
  case (1 count xs)
  show ?case
  proof (cases "count = 0 \<or> xs = []")
    case True
    with "1.prems" show ?thesis by (simp add: groups_of.simps[of count xs])
  next
    case False
    with "1.prems" consider "batch = take count xs"
      | "batch \<in> set (groups_of count (drop count xs))"
      by (auto simp: groups_of.simps[of count xs])
    then show ?thesis
    proof cases
      case 1
      with False show ?thesis by auto
    next
      case 2
      with False "1.IH" show ?thesis by simp
    qed
  qed
qed

lemma batch_size_value: "batch_size = 4"
  by (simp add: batch_size_def transcription_duration_def config_step_def)

text \<open>
  Claim C9. On the empty list \<^verbatim>\<open>concat\<close> raises IndexError at
  \<^verbatim>\<open>chunks[0]\<close>; on every non-empty list it returns a pair. The pipeline calls it
  on non-empty lists only: \<open>batch_size\<close> is positive (it is 4), so
  \<^verbatim>\<open>buffer_with_count\<close> accepts it and every batch it emits is non-empty, and a
  diarizer that returns one pair per window of the batch hands \<^verbatim>\<open>concat\<close> a
  non-empty list.
\<close>

theorem concat_needs_chunks:
  "concat_chunks P [] collar = Inl IndexError \<and>
   (chunks \<noteq> [] \<longrightarrow> (\<exists>r. concat_chunks P chunks collar = Inr r)) \<and>
   0 < batch_size \<and>
   (\<exists>batches. buffer_with_count batch_size windows = Inr batches \<and>
      (\<forall>batch \<in> set batches.
         batch \<noteq> [] \<and>
         (length (diarizer batch) = length batch \<longrightarrow>
            (\<exists>r. concat_chunks P (diarizer batch) collar = Inr r))))"
proof (intro conjI impI)
  show "concat_chunks P [] collar = Inl IndexError"
    by (simp add: concat_chunks_def)
  show "\<exists>r. concat_chunks P chunks collar = Inr r" if "chunks \<noteq> []"
    using concat_chunks_nonempty[OF that, of P collar] by simp
  show "0 < batch_size"
    by (simp add: batch_size_value)
  have emitted: "buffer_with_count batch_size windows = Inr (groups_of 4 windows)"
    by (simp add: buffer_with_count_def batch_size_value)
  have "batch \<noteq> [] \<and>
      (length (diarizer batch) = length batch \<longrightarrow>
         (\<exists>r. concat_chunks P (diarizer batch) collar = Inr r))"
    if b: "batch \<in> set (groups_of 4 windows)" for batch
  proof (intro conjI impI)
    from b show ne: "batch \<noteq> []"
      by (simp add: groups_of_nonempty)
    assume "length (diarizer batch) = length batch"
    with ne have "diarizer batch \<noteq> []" by auto
    then show "\<exists>r. concat_chunks P (diarizer batch) collar = Inr r"
      using concat_chunks_nonempty[of "diarizer batch" P collar] by simp
  qed
  with emitted show "\<exists>batches. buffer_with_count batch_size windows = Inr batches \<and>
      (\<forall>batch \<in> set batches.
         batch \<noteq> [] \<and>
         (length (diarizer batch) = length batch \<longrightarrow>
            (\<exists>r. concat_chunks P (diarizer batch) collar = Inr r)))"
    by blast
qed

text \<open>A run of two windows is emitted as one batch, which \<^verbatim>\<open>concat\<close> merges.\<close>

theorem concat_needs_chunks_witness:
  "concat_chunks intervals ([] :: (interval_annotation \<times> (rat, rat) SlidingWindowFeature) list)
     (1 / 20) = Inl IndexError \<and>
   [(quiet, recording 0)] \<noteq> [] \<and>
   (\<exists>r. concat_chunks intervals [(quiet, recording 0)] (1 / 20) = Inr r) \<and>
   0 < batch_size \<and>
   buffer_with_count batch_size [recording 0, recording (1 / 2)] =
     Inr [[recording 0, recording (1 / 2)]] \<and>
   length (map (Pair quiet) [recording 0, recording (1 / 2)]) =
     length [recording 0, recording (1 / 2)] \<and>
   (\<exists>r. concat_chunks intervals (map (Pair quiet) [recording 0, recording (1 / 2)]) (1 / 20) =
      Inr r)"
proof -
  note t = concat_needs_chunks[of intervals "1 / 20" "[(quiet, recording 0)]"
      "[recording 0, recording (1 / 2)]" "map (Pair quiet)"]
  have b: "buffer_with_count batch_size [recording 0, recording (1 / 2)] =
      Inr [[recording 0, recording (1 / 2)]]"
    by (simp add: buffer_with_count_def batch_size_value groups_of.simps)
  from t have e: "concat_chunks intervals
      ([] :: (interval_annotation \<times> (rat, rat) SlidingWindowFeature) list) (1 / 20) =
      Inl IndexError"
    by (rule conjunct1)
  from t have one: "\<exists>r. concat_chunks intervals [(quiet, recording 0)] (1 / 20) = Inr r"
    by blast
  from t have pos: "0 < batch_size"
    by blast
  from t b have every: "\<forall>batch \<in> set [[recording 0, recording (1 / 2)]].
      batch \<noteq> [] \<and>
      (length (map (Pair quiet) batch) = length batch \<longrightarrow>
         (\<exists>r. concat_chunks intervals (map (Pair quiet) batch) (1 / 20) = Inr r))"
    by auto
  then have
    "length (map (Pair quiet) [recording 0, recording (1 / 2)]) =
       length [recording 0, recording (1 / 2)] \<longrightarrow>
     (\<exists>r. concat_chunks intervals (map (Pair quiet) [recording 0, recording (1 / 2)])
        (1 / 20) = Inr r)"
    by simp
  then have batch: "\<exists>r. concat_chunks intervals
      (map (Pair quiet) [recording 0, recording (1 / 2)]) (1 / 20) = Inr r"
    by simp
  have len: "length (map (Pair quiet) [recording 0, recording (1 / 2)]) =
      length [recording 0, recording (1 / 2)]"
    by simp
  have ne: "[(quiet, recording 0)] \<noteq> []"
    by simp
  from e ne one pos b len batch show ?thesis
    by blast
qed

section \<open>The prompt buffer\<close>

lemma call_state:
  "snd (call W P self diarization waveform) =
     self\<lparr>buffer := buffer self @ tr_text (transcribe W self waveform)\<rparr>"
  by (simp add: call_def Let_def)

lemma transcribe_prompt:
  "transcribe W self waveform =
     whisper_transcribe W (model self) (pad_or_trim W (astype_float32_flat W (data waveform)))
       (buffer self)"
  by (simp add: transcribe_def)

lemma length_call_log: "length (call_log W P self inputs) = length inputs"
  by (induction W P self inputs rule: call_log.induct) simp_all

lemma call_log_prompt:
  "k < length inputs \<Longrightarrow>
   fst (call_log W P self inputs ! k) =
     buffer self @ concat (map snd (take k (call_log W P self inputs)))"
proof (induction W P self inputs arbitrary: k rule: call_log.induct)
  case (1 W P self)
  then show ?case by simp
next
  case (2 W P self diarization waveform rest)
  show ?case
  proof (cases k)
    case 0
    then show ?thesis by simp
  next
    case (Suc j)
    with "2.prems" have "j < length rest" by simp
    from "2.IH"[OF this] Suc show ?thesis
      by (simp add: call_state)
  qed
qed

lemma run_calls_state:
  "run_calls W P self inputs =
     self\<lparr>buffer := buffer self @ concat (map snd (call_log W P self inputs))\<rparr>"
  by (induction W P self inputs rule: run_calls.induct) (simp_all add: call_state)

text \<open>
  Claim C7. After a call the object is the object before it with the text of the new
  transcription appended to the buffer; the transcription of a call is whisper's
  answer to the buffer as prompt; after a run of calls the buffer is the initial
  buffer followed by the texts of all calls in order, so nothing is ever cut from it;
  the prompt of call \<open>k\<close> is the initial buffer followed by the texts of the calls
  before \<open>k\<close>; and the buffer of a newly constructed object is empty.
\<close>

theorem prompt_buffer_grows:
  "snd (call W P self diarization waveform) =
     self\<lparr>buffer := buffer self @ tr_text (transcribe W self waveform)\<rparr> \<and>
   transcribe W self waveform =
     whisper_transcribe W (model self) (pad_or_trim W (astype_float32_flat W (data waveform)))
       (buffer self) \<and>
   run_calls W P self inputs =
     self\<lparr>buffer := buffer self @ concat (map snd (call_log W P self inputs))\<rparr> \<and>
   length (call_log W P self inputs) = length inputs \<and>
   (k < length inputs \<longrightarrow>
      fst (call_log W P self inputs ! k) =
        buffer self @ concat (map snd (take k (call_log W P self inputs)))) \<and>
   (WhisperTranscriber_init W model_name device = Inr self \<longrightarrow> buffer self = [])"
proof -
  have "buffer self = []" if "WhisperTranscriber_init W model_name device = Inr self"
    using that by (auto simp: WhisperTranscriber_init_def split: sum.splits)
  then show ?thesis
    by (simp add: call_state transcribe_prompt run_calls_state length_call_log call_log_prompt)
qed

text \<open>Three calls on a new object: the third prompt is the first two texts.\<close>

theorem prompt_buffer_grows_witness:
  "WhisperTranscriber_init recogniser (PyStr ''small'') PyNone = Inr \<lparr>model = ''small'', buffer = []\<rparr> \<and>
   (2 :: nat) < length [(quiet, recording 0), (quiet, recording 2), (quiet, recording 4)] \<and>
   call_log recogniser intervals \<lparr>model = ''small'', buffer = []\<rparr>
       [(quiet, recording 0), (quiet, recording 2), (quiet, recording 4)] =
     [([], '' hello''), ('' hello'', '' again''), ('' hello again'', '' again'')] \<and>
   buffer (run_calls recogniser intervals \<lparr>model = ''small'', buffer = []\<rparr>
       [(quiet, recording 0), (quiet, recording 2), (quiet, recording 4)]) =
     '' hello again again''"
proof -
  let ?self = "\<lparr>model = ''small'', buffer = []\<rparr>"
  let ?inputs = "[(quiet, recording 0), (quiet, recording 2), (quiet, recording 4)]"
  note t = prompt_buffer_grows[of recogniser intervals ?self quiet "recording 0" ?inputs 2
      "PyStr ''small''" PyNone]
  have i: "WhisperTranscriber_init recogniser (PyStr ''small'') PyNone = Inr ?self"
    by (simp add: WhisperTranscriber_init_def recogniser_def)
  have l: "call_log recogniser intervals ?self ?inputs =
      [([], '' hello''), ('' hello'', '' again''), ('' hello again'', '' again'')]"
    by (simp add: call_state transcribe_def recogniser_def heard_def)
  from t have "run_calls recogniser intervals ?self ?inputs =
      ?self\<lparr>buffer := buffer ?self @ concat (map snd (call_log recogniser intervals ?self ?inputs))\<rparr>"
    by blast
  with l have "buffer (run_calls recogniser intervals ?self ?inputs) = '' hello again again''"
    by simp
  with i l show ?thesis
    by simp
qed

section \<open>Several speakers in the crop\<close>

text \<open>\<^verbatim>\<open>numpy.argmax\<close> returns the position of the first greatest element.\<close>

lemma argmax_scan_first_max:
  assumes "best_i < i"
  shows "(argmax_scan i best_i best xs = best_i \<and> (\<forall>x \<in> set xs. x \<le> best)) \<or>
         (i \<le> argmax_scan i best_i best xs \<and>
          argmax_scan i best_i best xs - i < length xs \<and>
          best < xs ! (argmax_scan i best_i best xs - i) \<and>
          (\<forall>j < argmax_scan i best_i best xs - i. xs ! j < xs ! (argmax_scan i best_i best xs - i)) \<and>
          (\<forall>x \<in> set xs. x \<le> xs ! (argmax_scan i best_i best xs - i)))"
  using assms
proof (induction xs arbitrary: i best_i best)
  case Nil
  then show ?case by simp
next
  case (Cons x xs)
  show ?case
  proof (cases "best < x")
    case True
    let ?r = "argmax_scan (Suc i) i x xs"
    have r: "argmax_scan i best_i best (x # xs) = ?r" using True by simp
    from Cons.IH[of i "Suc i" x]
    consider (stay) "?r = i" "\<forall>y \<in> set xs. y \<le> x"
      | (move) "Suc i \<le> ?r" "?r - Suc i < length xs" "x < xs ! (?r - Suc i)"
          "\<forall>j < ?r - Suc i. xs ! j < xs ! (?r - Suc i)" "\<forall>y \<in> set xs. y \<le> xs ! (?r - Suc i)"
      by auto
    then show ?thesis
    proof cases
      case stay
      with True show ?thesis unfolding r by auto
    next
      case move
      then have d: "?r - i = Suc (?r - Suc i)" by simp
      have "\<forall>j < ?r - i. (x # xs) ! j < (x # xs) ! (?r - i)"
        unfolding d using move(3,4) by (auto simp: nth_Cons split: nat.splits)
      moreover have "\<forall>y \<in> set (x # xs). y \<le> (x # xs) ! (?r - i)"
        unfolding d using move(3,5) by auto
      moreover have "best < (x # xs) ! (?r - i)"
        unfolding d using True move(3) by auto
      moreover have "i \<le> ?r" "?r - i < length (x # xs)"
        using move(1,2) by auto
      ultimately show ?thesis unfolding r by blast
    qed
  next
    case False
    let ?r = "argmax_scan (Suc i) best_i best xs"
    have r: "argmax_scan i best_i best (x # xs) = ?r" using False by simp
    from Cons.prems have "best_i < Suc i" by simp
    from Cons.IH[OF this, of best]
    consider (stay) "?r = best_i" "\<forall>y \<in> set xs. y \<le> best"
      | (move) "Suc i \<le> ?r" "?r - Suc i < length xs" "best < xs ! (?r - Suc i)"
          "\<forall>j < ?r - Suc i. xs ! j < xs ! (?r - Suc i)" "\<forall>y \<in> set xs. y \<le> xs ! (?r - Suc i)"
      by auto
    then show ?thesis
    proof cases
      case stay
      with False show ?thesis unfolding r by auto
    next
      case move
      then have d: "?r - i = Suc (?r - Suc i)" by simp
      have "\<forall>j < ?r - i. (x # xs) ! j < (x # xs) ! (?r - i)"
        unfolding d using False move(3,4) by (auto simp: nth_Cons split: nat.splits)
      moreover have "\<forall>y \<in> set (x # xs). y \<le> (x # xs) ! (?r - i)"
        unfolding d using False move(3,5) by auto
      moreover have "best < (x # xs) ! (?r - i)"
        unfolding d using move(3) by auto
      moreover have "i \<le> ?r" "?r - i < length (x # xs)"
        using move(1,2) by auto
      ultimately show ?thesis unfolding r by blast
    qed
  qed
qed

lemma np_argmax_first_max:
  assumes "xs \<noteq> []"
  shows "\<exists>i < length xs. np_argmax xs = Inr i \<and>
           (\<forall>j < length xs. xs ! j \<le> xs ! i) \<and> (\<forall>j < i. xs ! j < xs ! i)"
proof -
  obtain x rest where xs: "xs = x # rest" using assms by (cases xs) auto
  let ?r = "argmax_scan 1 0 x rest"
  have np: "np_argmax xs = Inr ?r" by (simp add: xs np_argmax_def)
  from argmax_scan_first_max[of 0 1 x rest]
  consider (stay) "?r = 0" "\<forall>y \<in> set rest. y \<le> x"
    | (move) "1 \<le> ?r" "?r - 1 < length rest" "x < rest ! (?r - 1)"
        "\<forall>j < ?r - 1. rest ! j < rest ! (?r - 1)" "\<forall>y \<in> set rest. y \<le> rest ! (?r - 1)"
    by auto
  then show ?thesis
  proof cases
    case stay
    then have "\<forall>j < length xs. xs ! j \<le> xs ! 0"
      by (auto simp: xs nth_Cons split: nat.splits)
    with stay np show ?thesis by (auto simp: xs)
  next
    case move
    then obtain k where k: "?r = Suc k" by (cases ?r) auto
    with move have "\<forall>j < length xs. xs ! j \<le> xs ! ?r"
      by (auto simp: xs nth_Cons split: nat.splits)
    moreover from k move have "\<forall>j < ?r. xs ! j < xs ! ?r"
      by (auto simp: xs nth_Cons split: nat.splits)
    moreover from k move have "?r < length xs" by (simp add: xs)
    ultimately show ?thesis using np by blast
  qed
qed

text \<open>With two or more labels in the crop, the speaker id of the caption is the
  position, in the list of labels, of the first label of greatest duration.\<close>

lemma assign_speaker_many:
  assumes "2 \<le> length (labels P dia)"
  shows "\<exists>i < length (labels P dia).
           assign_speaker P dia txt = Inr (int i, txt) \<and>
           (\<forall>j < length (labels P dia).
              label_duration P dia (labels P dia ! j) \<le> label_duration P dia (labels P dia ! i)) \<and>
           (\<forall>j < i.
              label_duration P dia (labels P dia ! j) < label_duration P dia (labels P dia ! i))"
proof -
  let ?ds = "map (label_duration P dia) (labels P dia)"
  from assms have "?ds \<noteq> []" by auto
  from np_argmax_first_max[OF this] obtain i
    where i: "i < length ?ds" "np_argmax ?ds = Inr i"
      "\<forall>j < length ?ds. ?ds ! j \<le> ?ds ! i" "\<forall>j < i. ?ds ! j < ?ds ! i"
    by blast
  from assms have "labels P dia \<noteq> []" "length (labels P dia) \<noteq> 1"
    by auto
  with i(2) have "assign_speaker P dia txt = Inr (int i, txt)"
    by (simp add: assign_speaker_def Let_def)
  with i show ?thesis by (auto intro!: exI[of _ i])
qed

text \<open>
  Claim C1 fails on the code. The claim: with several speakers in the crop, the
  caption's speaker id is the id of the speaker with the greatest duration. Here the
  crop holds \<^verbatim>\<open>speaker1\<close> for 1/4 s and \<^verbatim>\<open>speaker2\<close> for 5/4 s; the
  single-speaker branch would read id 2 from the label \<^verbatim>\<open>speaker2\<close>, but the
  caption carries 1, the position of that label in the list of labels.
\<close>

theorem most_active_speaker_index:
  "labels intervals (crop intervals two_voices (Segment (1 / 4) (7 / 4))) =
     [''speaker1'', ''speaker2''] \<and>
   label_duration intervals (crop intervals two_voices (Segment (1 / 4) (7 / 4))) ''speaker1'' =
     1 / 4 \<and>
   label_duration intervals (crop intervals two_voices (Segment (1 / 4) (7 / 4))) ''speaker2'' =
     5 / 4 \<and>
   speaker_id ''speaker2'' = Inr 2 \<and>
   identify_speakers intervals
     \<lparr>tr_segments =
        [\<lparr>seg_words = [\<lparr>word_start = 1 / 4, word_end = 1 / 2\<rparr>,
                        \<lparr>word_start = 1 / 2, word_end = 7 / 4\<rparr>],
          seg_text = ''hi there''\<rparr>],
      tr_text = ''hi there''\<rparr>
     two_voices 0 = Inr [(1, ''hi there'')]"
  by code_simp

section \<open>The transcription stage of the pipeline\<close>

lemma starmap_asr_result:
  "starmap_asr W (ann, wav) =
     (case load_model W (PyAnnotation ann) (PyWaveform wav) of
        Inl e \<Rightarrow> Inl e
      | Inr m \<Rightarrow> Inr (TranscriberObject \<lparr>model = m, buffer = []\<rparr>))"
  by (simp add: starmap_asr_def asr_def WhisperTranscriber_init_def split: sum.splits)

text \<open>
  Claim C3 fails on the code. The claim: the stage applies the transcriber to the pair
  and yields a list of captions. The stage calls the class instead of an object of
  it: whatever \<^verbatim>\<open>load_model\<close> does with an annotation as model name, the stage
  never yields a list of captions, and what it yields makes the colouring stage raise
  TypeError. With a loader that accepts model names only, the pair of the example,
  which passes the speech filter, ends in TypeError, as the run recorded in the
  notebook does.
\<close>

theorem asr_stage_constructs:
  "(\<forall>captions. starmap_asr W (ann, wav) \<noteq> Inr (Captions captions)) \<and>
   (case starmap_asr W (ann, wav) of
      Inl e \<Rightarrow> True
    | Inr v \<Rightarrow> map_colorize v = Inl TypeError) \<and>
   has_speech intervals (two_voices, recording 0) \<and>
   starmap_asr recogniser (two_voices, recording 0) = Inl TypeError"
proof -
  have "has_speech intervals (two_voices, recording 0)"
    by code_simp
  moreover have "starmap_asr recogniser (two_voices, recording 0) = Inl TypeError"
    by (simp add: starmap_asr_result recogniser_def)
  ultimately show ?thesis
    by (auto simp: starmap_asr_result map_colorize_def split: sum.splits)
qed

end
